theory Spec2Isabelle
  imports Main "HOL-Library.Sublist" "HOL-Library.AList" "HOL-Library.Word"
begin

section \<open>Weight conversion script: Extra/convert.py\<close>

text \<open>
  The script loads a pretrained state dict, renames its keys (\<open>dissect\<close>) and writes
  every tensor into a directory of its own, as \<open>metadata.json\<close> and \<open>weights.bin\<close>
  (\<open>main\<close>). Python strings are modelled as \<open>string\<close>; the patterns the script
  searches for are ASCII.
\<close>

subsection \<open>Python string operations used by the script\<close>

text \<open>
  \<open>s.replace(old, new)\<close>: scans \<open>s\<close> from the left, replaces each occurrence of
  \<open>old\<close> it meets and goes on behind the occurrence, so that the replaced occurrences
  do not overlap. For an empty \<open>old\<close>, \<open>new\<close> is put before every character and
  at the end.
\<close>

function str_replace :: "string \<Rightarrow> string \<Rightarrow> string \<Rightarrow> string" where
  "str_replace old new [] = (if old = [] then new else [])"
| "str_replace old new (c # cs) =
     (if old = [] then new @ c # str_replace old new cs
      else if prefix old (c # cs) then new @ str_replace old new (drop (length old) (c # cs))
      else c # str_replace old new cs)"
  by pat_completeness auto
termination
  by (relation "measure (\<lambda>(old, new, s). length s)") auto

text \<open>\<open>x in s\<close> on strings: \<open>x\<close> occurs in \<open>s\<close> as a contiguous substring.\<close>

fun str_in :: "string \<Rightarrow> string \<Rightarrow> bool" where
  "str_in x [] = (x = [])"
| "str_in x (c # cs) = (prefix x (c # cs) \<or> str_in x cs)"

subsection \<open>dissect: renaming the keys\<close>

text \<open>\<open>new_key = key.replace('backbone.', '')\<close>\<close>

definition new_key :: "string \<Rightarrow> string" where
  "new_key key = str_replace ''backbone.'' '''' key"

text \<open>
  \<open>load_state_dict_hf\<close> (the hub download and \<open>torch.load\<close>) is outside the
  repository: it is the parameter \<open>load\<close>, which returns the state dict or raises.
  A Python dict keeps its keys in insertion order; assigning to a key that is already
  there keeps its place and replaces its value, which is \<open>AList.update\<close>.
\<close>

datatype pyerror =
  IndexError | TypeError | FileExistsError | NotADirectoryError | IsADirectoryError
  | FileNotFoundError | LoadError

definition dissect ::
  "(string \<Rightarrow> pyerror + (string \<times> 'v) list) \<Rightarrow> string \<Rightarrow> pyerror + (string \<times> 'v) list" where
  "dissect load pretrained_model_name =
     (case load pretrained_model_name of
        Inl e \<Rightarrow> Inl e
      | Inr state_dict \<Rightarrow>
          Inr (fold (\<lambda>(key, v) new_state_dict. AList.update (new_key key) v new_state_dict)
                 state_dict []))"

subsection \<open>Tensors, numpy arrays and their bytes\<close>

datatype torch_dtype =
  Float16 | BFloat16 | Float32 | Float64 | UInt8 | Int8 | Int16 | Int32 | Int64 | Bool

text \<open>
  A tensor has an element type, a shape (\<open>data.shape\<close>, \<open>data.size()\<close>) and one
  element at every index below the shape. The elements are of an arbitrary type \<open>'e\<close>.
\<close>

record 'e tensor =
  t_dtype :: torch_dtype
  shape :: "nat list"
  item :: "nat list \<Rightarrow> 'e"

datatype np_dtype = F2 | F4

datatype byteorder = Little | Big

datatype scalar = Half "16 word" | Single "32 word"

text \<open>
  What numpy and the machine decide, not the script: how \<open>astype\<close> casts an element of
  the source type to binary16 and to binary32 (as bit patterns), and the byte order of
  the machine (\<open>'f2'\<close> and \<open>'f4'\<close> name dtypes in native byte order).
\<close>

record 'e numpy =
  cast_f2 :: "torch_dtype \<Rightarrow> 'e \<Rightarrow> 16 word"
  cast_f4 :: "torch_dtype \<Rightarrow> 'e \<Rightarrow> 32 word"
  native :: byteorder

record ndarray =
  nd_dtype :: np_dtype
  nd_shape :: "nat list"
  nd_item :: "nat list \<Rightarrow> scalar"

text \<open>
  \<open>data.numpy()\<close>: torch has no numpy counterpart of bfloat16 and raises TypeError.
  The tensors are plain tensors in main memory, as \<open>torch.load\<close> returns them from a
  checkpoint saved on the CPU.
\<close>

definition to_numpy :: "'e tensor \<Rightarrow> pyerror + 'e tensor" where
  "to_numpy data = (if t_dtype data = BFloat16 then Inl TypeError else Inr data)"

text \<open>\<open>.astype(dtype, order='C')\<close>: the same shape, every element cast.\<close>

definition astype :: "'e numpy \<Rightarrow> np_dtype \<Rightarrow> 'e tensor \<Rightarrow> ndarray" where
  "astype np dt a =
     \<lparr>nd_dtype = dt, nd_shape = shape a,
      nd_item = (\<lambda>i. case dt of
                   F2 \<Rightarrow> Half (cast_f2 np (t_dtype a) (item a i))
                 | F4 \<Rightarrow> Single (cast_f4 np (t_dtype a) (item a i)))\<rparr>"

text \<open>
  The indices of an array of a given shape in row-major (C) order: the last index runs
  fastest.
\<close>

fun ndindex :: "nat list \<Rightarrow> nat list list" where
  "ndindex [] = [[]]"
| "ndindex (d # ds) = concat (map (\<lambda>i. map ((#) i) (ndindex ds)) [0..<d])"

definition le_bytes :: "scalar \<Rightarrow> 8 word list" where
  "le_bytes x =
     (case x of
        Half w \<Rightarrow> [ucast w, ucast (drop_bit 8 w)]
      | Single w \<Rightarrow> [ucast w, ucast (drop_bit 8 w), ucast (drop_bit 16 w), ucast (drop_bit 24 w)])"

definition scalar_bytes :: "byteorder \<Rightarrow> scalar \<Rightarrow> 8 word list" where
  "scalar_bytes bo x = (case bo of Little \<Rightarrow> le_bytes x | Big \<Rightarrow> rev (le_bytes x))"

text \<open>\<open>np_data.tobytes()\<close>: the elements in C order, each in the machine's byte order.\<close>

definition tobytes :: "byteorder \<Rightarrow> ndarray \<Rightarrow> 8 word list" where
  "tobytes bo a = concat (map (\<lambda>i. scalar_bytes bo (nd_item a i)) (ndindex (nd_shape a)))"

subsection \<open>main: precision, metadata, paths\<close>

text \<open>
  \<open>dtype = 'f2' if any([x in key for x in ["embedding", "lm_head", "in_proj", "out_proj",
  "x_proj"]]) else 'f4'\<close>
\<close>

definition dtype :: "string \<Rightarrow> np_dtype" where
  "dtype key =
     (if list_ex (\<lambda>x. str_in x key)
           [''embedding'', ''lm_head'', ''in_proj'', ''out_proj'', ''x_proj'']
      then F2 else F4)"

datatype json =
  JString string | JInt int | JBool bool | JArray "json list" | JObject "(string \<times> json) list"

text \<open>\<open>metadata = {'key': key, 'shape': data.shape, 'is16bit': dtype == 'f2'}\<close>\<close>

definition metadata :: "string \<Rightarrow> 'e tensor \<Rightarrow> np_dtype \<Rightarrow> json" where
  "metadata key data dt =
     JObject [(''key'', JString key),
              (''shape'', JArray (map (\<lambda>d. JInt (int d)) (shape data))),
              (''is16bit'', JBool (dt = F2))]"

text \<open>
  Paths as \<open>pathlib\<close> keeps them on POSIX: a root (empty, one slash or two slashes) and
  the parts. Parsing a string splits it at the slashes and drops empty and \<open>.\<close>
  components; \<open>p / s\<close> appends the parts of \<open>s\<close>, or is \<open>s\<close> alone when \<open>s\<close> is
  absolute.
\<close>

record path =
  root :: string
  parts :: "string list"

fun split_on :: "char \<Rightarrow> string \<Rightarrow> string list" where
  "split_on sep [] = [[]]"
| "split_on sep (c # cs) =
     (if c = sep then [] # split_on sep cs
      else (case split_on sep cs of [] \<Rightarrow> [[c]] | x # xs \<Rightarrow> (c # x) # xs))"

definition path_root :: "string \<Rightarrow> string" where
  "path_root s =
     (if prefix ''//'' s \<and> \<not> prefix ''///'' s then ''//''
      else if prefix ''/'' s then ''/'' else '''')"

definition path_parts :: "string \<Rightarrow> string list" where
  "path_parts s = filter (\<lambda>x. x \<noteq> '''' \<and> x \<noteq> ''.'') (split_on CHR ''/'' s)"

definition Path :: "string \<Rightarrow> path" where
  "Path s = \<lparr>root = path_root s, parts = path_parts s\<rparr>"

definition truediv :: "path \<Rightarrow> string \<Rightarrow> path" where
  "truediv p s =
     (if path_root s \<noteq> '''' then Path s
      else \<lparr>root = root p, parts = parts p @ path_parts s\<rparr>)"

text \<open>
  \<open>foldername = Path(os.path.dirname(__file__)) / "converted" / model_name / key\<close>,
  where \<open>dirname_file\<close> stands for \<open>os.path.dirname(__file__)\<close>.
\<close>

definition foldername :: "string \<Rightarrow> string \<Rightarrow> string \<Rightarrow> path" where
  "foldername dirname_file model_name key =
     truediv (truediv (truediv (Path dirname_file) ''converted'') model_name) key"

text \<open>\<open>os.path.join(foldername, name)\<close> for a plain file name.\<close>

definition path_join :: "path \<Rightarrow> string \<Rightarrow> path" where
  "path_join p name = \<lparr>root = root p, parts = parts p @ [name]\<rparr>"

subsection \<open>The file system\<close>

text \<open>
  The file system maps a path to a directory or to a file with its content. A text file
  written from \<open>json.dumps(v)\<close> is kept as the JSON value \<open>v\<close>. Paths are looked up as
  they are written: \<open>..\<close> and links are not resolved, and permission is always granted.
\<close>

datatype content = Text json | Binary "8 word list"

datatype node = Dir | File content

type_synonym fs = "path \<Rightarrow> node option"

text \<open>
  \<open>os.makedirs(p, exist_ok=True)\<close> creates the missing directories from the top. A
  file in the way raises: NotADirectoryError below the last part, FileExistsError at
  the last part.
\<close>

fun mkdirs :: "fs \<Rightarrow> string \<Rightarrow> string list \<Rightarrow> string list \<Rightarrow> (pyerror \<times> fs) + fs" where
  "mkdirs fs r pre [] = Inr fs"
| "mkdirs fs r pre (x # xs) =
     (let d = \<lparr>root = r, parts = pre @ [x]\<rparr> in
      case fs d of
        None \<Rightarrow> mkdirs (fs(d \<mapsto> Dir)) r (pre @ [x]) xs
      | Some Dir \<Rightarrow> mkdirs fs r (pre @ [x]) xs
      | Some (File c) \<Rightarrow> Inl (if xs = [] then FileExistsError else NotADirectoryError, fs))"

definition makedirs :: "fs \<Rightarrow> path \<Rightarrow> (pyerror \<times> fs) + fs" where
  "makedirs fs p = mkdirs fs (root p) [] (parts p)"

text \<open>
  \<open>open(p, 'w')\<close> or \<open>open(p, 'wb')\<close> followed by one \<open>write\<close>: the file holds exactly
  what was written. The directory of the file must exist, and \<open>p\<close> must not be a
  directory.
\<close>

definition open_write :: "fs \<Rightarrow> path \<Rightarrow> content \<Rightarrow> (pyerror \<times> fs) + fs" where
  "open_write fs p c =
     (let parent = \<lparr>root = root p, parts = butlast (parts p)\<rparr> in
      if parts parent \<noteq> [] \<and> fs parent = None then Inl (FileNotFoundError, fs)
      else if parts parent \<noteq> [] \<and> fs parent \<noteq> Some Dir then Inl (NotADirectoryError, fs)
      else if fs p = Some Dir then Inl (IsADirectoryError, fs)
      else Inr (fs(p \<mapsto> File c)))"

subsection \<open>main: the export loop\<close>

text \<open>
  One round of the loop \<open>for key in state_dict\<close>, on the list \<open>lens\<close> and the file
  system. An exception ends the round with the file system as it is then.
\<close>

fun export_tensor ::
  "'e numpy \<Rightarrow> string \<Rightarrow> string \<Rightarrow> nat list \<times> fs \<Rightarrow> string \<times> 'e tensor
   \<Rightarrow> (pyerror \<times> fs) + (nat list \<times> fs)" where
  "export_tensor np dirname_file model_name (lens, fs) (key, data) =
     (let lens1 = lens @ [length (shape data)];
          folder = foldername dirname_file model_name key
      in case makedirs fs folder of
        Inl e \<Rightarrow> Inl e
      | Inr fs1 \<Rightarrow>
          (let dt = dtype key
           in case to_numpy data of
             Inl e \<Rightarrow> Inl (e, fs1)
           | Inr a \<Rightarrow>
               (let np_data = astype np dt a;
                    md = metadata key data dt;
                    bytes = tobytes (native np) np_data
                in case open_write fs1 (path_join folder ''metadata.json'') (Text md) of
                  Inl e \<Rightarrow> Inl e
                | Inr fs2 \<Rightarrow>
                    (case open_write fs2 (path_join folder ''weights.bin'') (Binary bytes) of
                       Inl e \<Rightarrow> Inl e
                     | Inr fs3 \<Rightarrow> Inr (lens1, fs3)))))"

fun export_all ::
  "'e numpy \<Rightarrow> string \<Rightarrow> string \<Rightarrow> nat list \<times> fs \<Rightarrow> (string \<times> 'e tensor) list
   \<Rightarrow> (pyerror \<times> fs) + (nat list \<times> fs)" where
  "export_all np dirname_file model_name st [] = Inr st"
| "export_all np dirname_file model_name st (kv # rest) =
     (case export_tensor np dirname_file model_name st kv of
        Inl e \<Rightarrow> Inl e
      | Inr st1 \<Rightarrow> export_all np dirname_file model_name st1 rest)"

text \<open>
  What \<open>main\<close> runs in: the loader behind \<open>dissect\<close>, numpy and the machine, the
  directory of the script and the file system at the start.
\<close>

record 'e env =
  load_state_dict_hf :: "string \<Rightarrow> pyerror + (string \<times> 'e tensor) list"
  np_lib :: "'e numpy"
  dirname_file :: string
  files :: fs

text \<open>
  What a run leaves: the lines printed, the value \<open>main\<close> returns (\<open>None\<close> when it
  falls off its end) or the exception that ended it, and the file system.
\<close>

record outcome =
  stdout :: "string list"
  result :: "pyerror + int option"
  disk :: fs

definition usage :: string where
  "usage = ''Please provide one of: mamba-130m, mamba-370m, mamba-790m, mamba-1.4b, mamba-2.8b.''"

text \<open>\<open>xs[i]\<close> for an index that is not negative.\<close>

definition getitem :: "'a list \<Rightarrow> nat \<Rightarrow> pyerror + 'a" where
  "getitem xs i = (if i < length xs then Inr (xs ! i) else Inl IndexError)"

definition main :: "'e env \<Rightarrow> string list \<Rightarrow> outcome" where
  "main env argv =
     (if length argv < 1 then
        \<lparr>stdout = [usage], result = Inr (Some (- 1)), disk = files env\<rparr>
      else
        (case getitem argv 1 of
           Inl e \<Rightarrow> \<lparr>stdout = [], result = Inl e, disk = files env\<rparr>
         | Inr model_name \<Rightarrow>
             (let out = [''Model to convert: '' @ model_name]
              in case dissect (load_state_dict_hf env) (''state-spaces/'' @ model_name) of
                Inl e \<Rightarrow> \<lparr>stdout = out, result = Inl e, disk = files env\<rparr>
              | Inr state_dict \<Rightarrow>
                  (case export_all (np_lib env) (dirname_file env) model_name
                          ([], files env) state_dict of
                     Inl (e, fs) \<Rightarrow> \<lparr>stdout = out, result = Inl e, disk = fs\<rparr>
                   | Inr (lens, fs) \<Rightarrow> \<lparr>stdout = out, result = Inr None, disk = fs\<rparr>))))"

text \<open>
  \<open>if __name__ == "__main__": main()\<close>: the value \<open>main\<close> returns is dropped, so the
  interpreter ends with status 0 unless an exception escapes, which ends it with
  status 1.
\<close>

definition exit_status :: "'e env \<Rightarrow> string list \<Rightarrow> int" where
  "exit_status env argv = (case result (main env argv) of Inl e \<Rightarrow> 1 | Inr r \<Rightarrow> 0)"

subsection \<open>Notions used in the properties\<close>

text \<open>
  The renaming as the specification words it: the prefix is removed when the name starts
  with it, and any other name is returned as it is.
\<close>

definition normalize_spec :: "string \<Rightarrow> string" where
  "normalize_spec name =
     (if prefix ''backbone.'' name then drop (length ''backbone.'') name else name)"

text \<open>
  Every occurrence of the prefix in a name is at the start of the name or right behind a
  dot, as in a dotted module path. \<open>occ_aligned ok s\<close> scans \<open>s\<close>; \<open>ok\<close> says
  whether an occurrence may start at the current position.
\<close>

fun occ_aligned :: "bool \<Rightarrow> string \<Rightarrow> bool" where
  "occ_aligned ok [] = True"
| "occ_aligned ok (c # cs) =
     ((prefix ''backbone.'' (c # cs) \<longrightarrow> ok) \<and> occ_aligned (c = CHR ''.'') cs)"

definition component_aligned :: "string \<Rightarrow> bool" where
  "component_aligned name = occ_aligned True name"

text \<open>The value of a field of a JSON object.\<close>

definition json_field :: "json \<Rightarrow> string \<Rightarrow> json option" where
  "json_field v k = (case v of JObject kvs \<Rightarrow> map_of kvs k | _ \<Rightarrow> None)"

text \<open>
  The destination root of a run: the directory \<open>converted/model_name\<close> beside the
  script.
\<close>

definition dest_root :: "string \<Rightarrow> string \<Rightarrow> path" where
  "dest_root dir model_name = truediv (truediv (Path dir) ''converted'') model_name"

text \<open>The bytes of one element and the number its bit pattern stands for.\<close>

definition itemsize :: "np_dtype \<Rightarrow> nat" where
  "itemsize dt = (case dt of F2 \<Rightarrow> 2 | F4 \<Rightarrow> 4)"


text \<open>
  The directory of \<open>key\<close> holds the two files the loop writes for the tensor \<open>data\<close>
  under this key.
\<close>

definition written :: "'e numpy \<Rightarrow> string \<Rightarrow> string \<Rightarrow> fs \<Rightarrow> string \<Rightarrow> 'e tensor \<Rightarrow> bool" where
  "written np dir model_name fs key data \<longleftrightarrow>
     fs (path_join (foldername dir model_name key) ''metadata.json'')
       = Some (File (Text (metadata key data (dtype key)))) \<and>
     fs (path_join (foldername dir model_name key) ''weights.bin'')
       = Some (File (Binary (tobytes (native np) (astype np (dtype key) data))))"

subsection \<open>Example runs\<close>

text \<open>
  Tensors whose elements are 1 or 0, and numpy's casts on these two values:
  1 becomes 1.0 (\<open>0x3C00\<close> in binary16, \<open>0x3F800000\<close> in binary32) and 0 becomes
  0.0, from a float and from an integer element type alike. The machine is
  little-endian, the script lies in \<open>/repo/Extra\<close>, the file system is empty at the
  start and the loader knows one model.
\<close>

definition example_numpy :: "int numpy" where
  "example_numpy =
     \<lparr>cast_f2 = (\<lambda>d x. if x = 1 then 0x3C00 else 0),
      cast_f4 = (\<lambda>d x. if x = 1 then 0x3F800000 else 0),
      native = Little\<rparr>"

definition example_env :: "(string \<times> int tensor) list \<Rightarrow> int env" where
  "example_env state_dict =
     \<lparr>load_state_dict_hf =
        (\<lambda>name. if name = ''state-spaces/mamba-130m'' then Inr state_dict else Inl LoadError),
      np_lib = example_numpy,
      dirname_file = ''/repo/Extra'',
      files = Map.empty\<rparr>"

definition ones :: "torch_dtype \<Rightarrow> nat list \<Rightarrow> int tensor" where
  "ones dt sh = \<lparr>t_dtype = dt, shape = sh, item = (\<lambda>i. 1)\<rparr>"

definition zeros :: "torch_dtype \<Rightarrow> nat list \<Rightarrow> int tensor" where
  "zeros dt sh = \<lparr>t_dtype = dt, shape = sh, item = (\<lambda>i. 0)\<rparr>"

definition one_hot :: "torch_dtype \<Rightarrow> nat list \<Rightarrow> nat list \<Rightarrow> int tensor" where
  "one_hot dt sh hot = \<lparr>t_dtype = dt, shape = sh, item = (\<lambda>i. if i = hot then 1 else 0)\<rparr>"

definition argv_130m :: "string list" where
  "argv_130m = [''convert.py'', ''mamba-130m'']"

definition scenario_a :: "(string \<times> int tensor) list" where
  "scenario_a = [(''backbone.embedding.weight'', ones Float32 [3, 4])]"

definition scenario_c :: "(string \<times> int tensor) list" where
  "scenario_c =
     [(''backbone.layers.0.mixer.in_proj.weight'', one_hot Float32 [2, 2] [0, 1])]"

definition colliding :: "(string \<times> int tensor) list" where
  "colliding = [(''backbone.norm.weight'', ones Float32 [2]), (''norm.weight'', zeros Float32 [2])]"

definition integer_valued :: "(string \<times> int tensor) list" where
  "integer_valued = [(''norm.weight'', ones Int64 [2])]"

section \<open>Properties\<close>

subsection \<open>Strings and the renaming\<close>

lemma str_in_sublist: "str_in x s \<longleftrightarrow> sublist x s"
  by (induction s) (auto simp: sublist_Cons_right)

lemma str_replace_prefix:
  "old \<noteq> [] \<Longrightarrow> prefix old s \<Longrightarrow>
   str_replace old new s = new @ str_replace old new (drop (length old) s)"
  by (cases s) simp_all

lemma str_replace_no_prefix:
  "old \<noteq> [] \<Longrightarrow> \<not> prefix old (c # cs) \<Longrightarrow>
   str_replace old new (c # cs) = c # str_replace old new cs"
  by simp

lemma str_replace_absent: "old \<noteq> [] \<Longrightarrow> \<not> sublist old s \<Longrightarrow> str_replace old new s = s"
  by (induction s) (simp_all add: sublist_Cons_right)

lemma length_str_remove: "old \<noteq> [] \<Longrightarrow> length (str_replace old [] s) \<le> length s"
proof (induction s rule: length_induct)
  case (1 s)
  show ?case
  proof (cases s)
    case Nil
    then show ?thesis using "1.prems" by simp
  next
    case (Cons c cs)
    show ?thesis
    proof (cases "prefix old s")
      case True
      have "length (drop (length old) s) < length s" using Cons "1.prems" by simp
      with 1 have "length (str_replace old [] (drop (length old) s)) \<le> length (drop (length old) s)"
        by blast
      then show ?thesis using str_replace_prefix [OF "1.prems" True, of "[]"] by simp
    next
      case False
      have "length cs < length s" using Cons by simp
      with 1 have "length (str_replace old [] cs) \<le> length cs" by blast
      then show ?thesis using False Cons "1.prems" by simp
    qed
  qed
qed

lemma str_remove_shorter:
  "old \<noteq> [] \<Longrightarrow> sublist old s \<Longrightarrow> length (str_replace old [] s) < length s"
proof (induction s)
  case Nil
  then show ?case by simp
next
  case (Cons c cs)
  show ?case
  proof (cases "prefix old (c # cs)")
    case True
    have "length (str_replace old [] (drop (length old) (c # cs))) \<le> length (drop (length old) (c # cs))"
      using Cons.prems(1) by (rule length_str_remove)
    moreover have "length (drop (length old) (c # cs)) < length (c # cs)"
      using Cons.prems(1) by (cases old) simp_all
    ultimately show ?thesis using str_replace_prefix [OF Cons.prems(1) True, of "[]"] by simp
  next
    case False
    with Cons.prems have "sublist old cs" by (simp add: sublist_Cons_right)
    then show ?thesis using Cons.IH Cons.prems(1) False by simp
  qed
qed

lemma new_key_Nil: "new_key [] = []"
  by (simp add: new_key_def)

lemma new_key_prefix:
  assumes "prefix ''backbone.'' s"
  shows "new_key s = new_key (drop 9 s)"
proof -
  have l: "length ''backbone.'' = 9" by simp
  have "str_replace ''backbone.'' [] s = [] @ str_replace ''backbone.'' [] (drop (length ''backbone.'') s)"
    using _ assms by (rule str_replace_prefix) simp
  then show ?thesis unfolding new_key_def l by (simp only: append_Nil)
qed

lemma new_key_no_prefix: "\<not> prefix ''backbone.'' (c # cs) \<Longrightarrow> new_key (c # cs) = c # new_key cs"
  unfolding new_key_def by (rule str_replace_no_prefix) simp

lemma new_key_absent: "\<not> sublist ''backbone.'' s \<Longrightarrow> new_key s = s"
  unfolding new_key_def by (rule str_replace_absent) simp

lemma new_key_shorter: "sublist ''backbone.'' s \<Longrightarrow> length (new_key s) < length s"
  unfolding new_key_def by (rule str_remove_shorter) simp

lemma new_key_fixed_iff: "new_key s = s \<longleftrightarrow> \<not> sublist ''backbone.'' s"
  using new_key_absent [of s] new_key_shorter [of s] by auto

lemma no_border:
  assumes "prefix ''backbone.'' (p @ ''backbone.'' @ r)" and "p \<noteq> []"
  shows "9 \<le> length p"
proof (rule ccontr)
  assume "\<not> 9 \<le> length p"
  then have lt: "length p < 9" by simp
  from assms(2) have pos: "0 < length p" by simp
  from assms(1) obtain z where eq: "p @ ''backbone.'' @ r = ''backbone.'' @ z"
    by (auto simp: prefix_def)
  have "(p @ ''backbone.'' @ r) ! 8 = (''backbone.'' @ r) ! (8 - length p)"
    using lt by (simp add: nth_append)
  also have "\<dots> = ''backbone.'' ! (8 - length p)"
    by (rule nth_append_left) simp
  finally have a: "(p @ ''backbone.'' @ r) ! 8 = ''backbone.'' ! (8 - length p)" .
  have b: "(''backbone.'' @ z) ! 8 = CHR ''.''" by simp
  have "8 - length p < 8" using pos by simp
  then have "8 - length p \<in> {0,1,2,3,4,5,6,7}" by auto
  then have "''backbone.'' ! (8 - length p) \<noteq> CHR ''.''"
    by (elim insertE) simp_all
  with a b eq show False by simp
qed

lemma new_key_leftmost:
  "\<not> sublist ''backbone.'' p \<Longrightarrow> new_key (p @ ''backbone.'' @ r) = p @ new_key r"
proof (induction p)
  case Nil
  show ?case using new_key_prefix [of "''backbone.'' @ r"] by simp
next
  case (Cons c p)
  from Cons.prems have np: "\<not> prefix ''backbone.'' (c # p)" and ns: "\<not> sublist ''backbone.'' p"
    by (simp_all add: sublist_Cons_right)
  have "\<not> prefix ''backbone.'' ((c # p) @ ''backbone.'' @ r)"
  proof
    assume pr: "prefix ''backbone.'' ((c # p) @ ''backbone.'' @ r)"
    then have "9 \<le> length (c # p)" by (rule no_border) simp
    then have "length ''backbone.'' \<le> length (c # p)" by simp
    with pr have "prefix ''backbone.'' (c # p)"
      by (rule prefix_length_prefix [OF _ prefixI [OF refl]])
    with np show False ..
  qed
  then have "new_key ((c # p) @ ''backbone.'' @ r) = c # new_key (p @ ''backbone.'' @ r)"
    using new_key_no_prefix by simp
  with Cons.IH [OF ns] show ?case by simp
qed


text \<open>
  Claim C1, as the code has it. The renaming removes every occurrence of \<open>backbone.\<close>
  that the scan from the left meets, wherever it lies: a name \<open>p @ ''backbone.'' @ r\<close>
  with no occurrence in \<open>p\<close> becomes \<open>p\<close> followed by the renaming of \<open>r\<close>. It is
  the removal of the prefix alone exactly for the names that hold no occurrence once a
  leading prefix is taken off; a name without any occurrence is returned as it is.
\<close>

theorem new_key_removes_every_occurrence:
  "(new_key n = normalize_spec n \<longleftrightarrow> \<not> sublist ''backbone.'' (normalize_spec n)) \<and>
   (\<not> sublist ''backbone.'' p \<longrightarrow> new_key (p @ ''backbone.'' @ r) = p @ new_key r)"
proof (intro conjI impI)
  show "new_key n = normalize_spec n \<longleftrightarrow> \<not> sublist ''backbone.'' (normalize_spec n)"
  proof (cases "prefix ''backbone.'' n")
    case True
    have "length ''backbone.'' = 9" by simp
    then have "normalize_spec n = drop 9 n" using True by (simp only: normalize_spec_def if_True)
    then show ?thesis using new_key_prefix [OF True] new_key_fixed_iff [of "drop 9 n"] by simp
  next
    case False
    then have "normalize_spec n = n" by (simp only: normalize_spec_def if_False)
    then show ?thesis using new_key_fixed_iff [of n] by simp
  qed
next
  assume "\<not> sublist ''backbone.'' p"
  then show "new_key (p @ ''backbone.'' @ r) = p @ new_key r" by (rule new_key_leftmost)
qed

text \<open>The two parts at \<open>backbone.embedding.weight\<close> and \<open>x.backbone.backbone.y\<close>.\<close>

theorem new_key_removes_every_occurrence_witness:
  "\<not> sublist ''backbone.'' (normalize_spec ''backbone.embedding.weight'') \<and>
   new_key ''backbone.embedding.weight'' = ''embedding.weight'' \<and>
   \<not> sublist ''backbone.'' ''x.'' \<and>
   new_key (''x.'' @ ''backbone.'' @ ''backbone.y'') = ''x.y''"
proof -
  have a: "normalize_spec ''backbone.embedding.weight'' = ''embedding.weight''"
    by (simp add: normalize_spec_def)
  have b: "\<not> sublist ''backbone.'' ''embedding.weight''"
    by (simp add: str_in_sublist [symmetric])
  have c: "\<not> sublist ''backbone.'' ''x.''"
    by (simp add: str_in_sublist [symmetric])
  have d: "new_key ''backbone.y'' = ''y''"
    by (simp add: new_key_def)
  from new_key_removes_every_occurrence [of "''backbone.embedding.weight''" "''x.''" "''backbone.y''"]
  show ?thesis using a b c d by simp
qed

text \<open>
  Claim C1 as stated fails: \<open>x.backbone.y\<close> does not start with the prefix and is
  changed, and of \<open>backbone.backbone.y\<close> more than the leading occurrence is removed.
\<close>

theorem new_key_not_prefix_removal_counterexample:
  "\<not> prefix ''backbone.'' ''x.backbone.y'' \<and>
   new_key ''x.backbone.y'' = ''x.y'' \<and>
   new_key ''x.backbone.y'' \<noteq> normalize_spec ''x.backbone.y'' \<and>
   new_key ''backbone.backbone.y'' = ''y'' \<and>
   normalize_spec ''backbone.backbone.y'' = ''backbone.y''"
  by (simp add: new_key_def normalize_spec_def)

text \<open>
  Claim C4 as stated fails: removing the occurrence inside \<open>backbackbone.bone.\<close> joins
  a new one, which a second renaming removes.
\<close>

theorem new_key_not_idempotent_counterexample:
  "new_key ''backbackbone.bone.'' = ''backbone.'' \<and>
   new_key (new_key ''backbackbone.bone.'') = '''' \<and>
   new_key (new_key ''backbackbone.bone.'') \<noteq> new_key ''backbackbone.bone.''"
  by (simp add: new_key_def)



lemma occ_aligned_iff:
  "occ_aligned ok s \<longleftrightarrow>
   (\<forall>p r. s = p @ ''backbone.'' @ r \<longrightarrow> (if p = [] then ok else last p = CHR ''.''))"
proof (induction s arbitrary: ok)
  case Nil
  then show ?case by simp
next
  case (Cons c cs)
  have "(\<forall>p r. c # cs = p @ ''backbone.'' @ r \<longrightarrow> (if p = [] then ok else last p = CHR ''.'')) \<longleftrightarrow>
        ((\<forall>r. c # cs = ''backbone.'' @ r \<longrightarrow> ok) \<and>
         (\<forall>p' r. cs = p' @ ''backbone.'' @ r \<longrightarrow> (if p' = [] then c = CHR ''.'' else last p' = CHR ''.'')))"
    (is "?L \<longleftrightarrow> ?A \<and> ?B")
  proof
    assume l: ?L
    have ?A using l [rule_format, of "[]"] by simp
    moreover have ?B
    proof (intro allI impI)
      fix p' r assume "cs = p' @ ''backbone.'' @ r"
      then have "c # cs = (c # p') @ ''backbone.'' @ r" by simp
      from l [rule_format, OF this] show "if p' = [] then c = CHR ''.'' else last p' = CHR ''.''"
        by (simp split: if_splits)
    qed
    ultimately show "?A \<and> ?B" ..
  next
    assume ab: "?A \<and> ?B"
    show ?L
    proof (intro allI impI)
      fix p r assume eq: "c # cs = p @ ''backbone.'' @ r"
      show "if p = [] then ok else last p = CHR ''.''"
      proof (cases p)
        case Nil
        with eq ab show ?thesis by simp
      next
        case (Cons d p')
        with eq have "cs = p' @ ''backbone.'' @ r" by simp
        with ab have "if p' = [] then c = CHR ''.'' else last p' = CHR ''.''" by blast
        moreover have "d = c" using eq Cons by simp
        ultimately show ?thesis using Cons by (simp split: if_splits)
      qed
    qed
  qed
  moreover have "?A \<longleftrightarrow> (prefix ''backbone.'' (c # cs) \<longrightarrow> ok)"
    unfolding prefix_def by blast
  ultimately show ?case using Cons.IH [of "c = CHR ''.''"] by (simp only: occ_aligned.simps)
qed

lemma occ_aligned_drop: "occ_aligned ok s \<Longrightarrow> \<exists>ok'. occ_aligned ok' (drop k s)"
proof (induction k arbitrary: ok s)
  case 0
  then show ?case by auto
next
  case (Suc k)
  show ?case
  proof (cases s)
    case Nil
    then show ?thesis by simp
  next
    case (Cons c cs)
    with Suc.prems have "occ_aligned (c = CHR ''.'') cs" by simp
    from Suc.IH [OF this] show ?thesis using Cons by simp
  qed
qed

lemma new_key_first_dot:
  "occ_aligned False cs \<Longrightarrow> CHR ''.'' \<notin> set q \<Longrightarrow> prefix (q @ ''.'') (new_key cs) \<Longrightarrow>
   prefix (q @ ''.'') cs"
proof (induction cs arbitrary: q)
  case Nil
  then show ?case by (simp add: new_key_Nil)
next
  case (Cons d ds)
  from Cons.prems(1) have np: "\<not> prefix ''backbone.'' (d # ds)"
    and al: "occ_aligned (d = CHR ''.'') ds"
    by (simp_all only: occ_aligned.simps) simp_all
  have nk: "new_key (d # ds) = d # new_key ds" using np by (rule new_key_no_prefix)
  show ?case
  proof (cases q)
    case Nil
    with Cons.prems(3) nk show ?thesis by simp
  next
    case (Cons e q')
    with Cons.prems(3) nk have ed: "e = d" and pr: "prefix (q' @ ''.'') (new_key ds)" by simp_all
    from Cons Cons.prems(2) ed have nd: "d \<noteq> CHR ''.''" and nq: "CHR ''.'' \<notin> set q'" by auto
    from al nd have "occ_aligned False ds" by simp
    from Cons.IH [OF this nq pr] show ?thesis using Cons ed by simp
  qed
qed

lemma new_key_aligned_clean: "occ_aligned ok s \<Longrightarrow> \<not> sublist ''backbone.'' (new_key s)"
proof (induction s arbitrary: ok rule: length_induct)
  case (1 s)
  show ?case
  proof (cases s)
    case Nil
    then show ?thesis by (simp add: new_key_Nil)
  next
    case (Cons c cs)
    show ?thesis
    proof (cases "prefix ''backbone.'' s")
      case True
      obtain ok' where "occ_aligned ok' (drop 9 s)" using occ_aligned_drop [OF "1.prems"] by blast
      moreover have "length (drop 9 s) < length s" using Cons by simp
      ultimately have "\<not> sublist ''backbone.'' (new_key (drop 9 s))" using "1.IH" by blast
      then show ?thesis using new_key_prefix [OF True] by simp
    next
      case False
      then have np: "\<not> prefix ''backbone.'' (c # cs)" using Cons by simp
      have nk: "new_key (c # cs) = c # new_key cs" using np by (rule new_key_no_prefix)
      from "1.prems" Cons have al: "occ_aligned (c = CHR ''.'') cs" by simp
      have "length cs < length s" using Cons by simp
      with al "1.IH" have ih: "\<not> sublist ''backbone.'' (new_key cs)" by blast
      have "\<not> prefix ''backbone.'' (c # new_key cs)"
      proof
        assume pr: "prefix ''backbone.'' (c # new_key cs)"
        then have "c = CHR ''b'' \<and> prefix (''ackbone'' @ ''.'') (new_key cs)"
          by (cases "c = CHR ''b''") simp_all
        then have cb: "c = CHR ''b''" and pr': "prefix (''ackbone'' @ ''.'') (new_key cs)"
          by (rule conjunct1, rule conjunct2)
        from al cb have "occ_aligned False cs" by simp
        moreover have "CHR ''.'' \<notin> set ''ackbone''" by simp
        ultimately have "prefix (''ackbone'' @ ''.'') cs" using pr' by (rule new_key_first_dot)
        with cb have "prefix ''backbone.'' (c # cs)" by simp
        with np show False ..
      qed
      with ih have "\<not> sublist ''backbone.'' (c # new_key cs)" by (simp only: sublist_Cons_right) simp
      with nk Cons show ?thesis by simp
    qed
  qed
qed

text \<open>
  Claim C4, as the code has it. Renaming twice gives the same as renaming once exactly
  when the renamed name holds no occurrence of \<open>backbone.\<close> any more. This is so for
  every name in which each occurrence of \<open>backbone.\<close> starts the name or follows a dot.
\<close>

theorem new_key_idempotent_iff:
  "(new_key (new_key n) = new_key n \<longleftrightarrow> \<not> sublist ''backbone.'' (new_key n)) \<and>
   (component_aligned n \<longrightarrow> new_key (new_key n) = new_key n)"
proof (intro conjI impI)
  show "new_key (new_key n) = new_key n \<longleftrightarrow> \<not> sublist ''backbone.'' (new_key n)"
    by (rule new_key_fixed_iff)
next
  assume "component_aligned n"
  then have "\<not> sublist ''backbone.'' (new_key n)"
    unfolding component_aligned_def by (rule new_key_aligned_clean)
  then show "new_key (new_key n) = new_key n" by (rule new_key_absent)
qed

text \<open>A dotted name with two occurrences, both at the start of a component.\<close>

theorem new_key_idempotent_iff_witness:
  "component_aligned ''backbone.layers.0.backbone.norm'' \<and>
   \<not> sublist ''backbone.'' (new_key ''backbone.layers.0.backbone.norm'') \<and>
   new_key (new_key ''backbone.layers.0.backbone.norm'') = new_key ''backbone.layers.0.backbone.norm''"
proof -
  have a: "component_aligned ''backbone.layers.0.backbone.norm''"
    by (simp add: component_aligned_def)
  from new_key_idempotent_iff [of "''backbone.layers.0.backbone.norm''"] a
  show ?thesis by blast
qed

lemma list_ex_markers:
  "list_ex (\<lambda>x. str_in x s) ms \<longleftrightarrow> (\<exists>m \<in> set ms. \<exists>p q. s = p @ m @ q)"
  by (simp add: list_ex_iff str_in_sublist sublist_def)

text \<open>
  Claim C3. For every string the precision is \<open>'f2'\<close> exactly when one of the five
  markers \<open>embedding\<close>, \<open>lm_head\<close>, \<open>in_proj\<close>, \<open>out_proj\<close>, \<open>x_proj\<close> occurs in
  it as a substring, character for character and at any place, and \<open>'f4'\<close> otherwise;
  the field \<open>is16bit\<close> of the metadata says whether it is \<open>'f2'\<close>.
\<close>

theorem dtype_reduced_iff_marker:
  "(dtype s = F2 \<longleftrightarrow>
      (\<exists>m \<in> set [''embedding'', ''lm_head'', ''in_proj'', ''out_proj'', ''x_proj''].
         \<exists>p q. s = p @ m @ q)) \<and>
   (dtype s = F4 \<longleftrightarrow>
      \<not> (\<exists>m \<in> set [''embedding'', ''lm_head'', ''in_proj'', ''out_proj'', ''x_proj''].
         \<exists>p q. s = p @ m @ q)) \<and>
   json_field (metadata s data (dtype s)) ''is16bit'' = Some (JBool (dtype s = F2))"
  unfolding dtype_def list_ex_markers
  by (simp add: metadata_def json_field_def)

text \<open>A name with a marker in its middle, and a name with a marker in another case.\<close>

theorem dtype_reduced_iff_marker_witness:
  "dtype ''layers.0.mixer.in_proj.weight'' = F2 \<and>
   (\<exists>m \<in> set [''embedding'', ''lm_head'', ''in_proj'', ''out_proj'', ''x_proj''].
         \<exists>p q. ''layers.0.mixer.in_proj.weight'' = p @ m @ q) \<and>
   dtype ''norm.Embedding'' = F4 \<and>
   \<not> (\<exists>m \<in> set [''embedding'', ''lm_head'', ''in_proj'', ''out_proj'', ''x_proj''].
         \<exists>p q. ''norm.Embedding'' = p @ m @ q)"
proof -
  have a: "dtype ''layers.0.mixer.in_proj.weight'' = F2" by (simp add: dtype_def)
  have b: "dtype ''norm.Embedding'' = F4" by (simp add: dtype_def)
  from a b dtype_reduced_iff_marker [of "''layers.0.mixer.in_proj.weight''"]
    dtype_reduced_iff_marker [of "''norm.Embedding''"]
  show ?thesis by blast
qed

subsection \<open>The bytes of an array\<close>

lemma length_ndindex: "length (ndindex sh) = prod_list sh"
proof (induction sh)
  case Nil
  show ?case by simp
next
  case (Cons d ds)
  have "length (ndindex (d # ds)) = sum_list (map (\<lambda>i. length (ndindex ds)) [0..<d])"
    by (simp add: length_concat comp_def)
  also have "\<dots> = d * length (ndindex ds)"
    by (simp add: sum_list_triv)
  finally show ?case using Cons.IH by simp
qed

lemma length_scalar_bytes_astype:
  "length (scalar_bytes bo (nd_item (astype np dt a) i)) = itemsize dt"
  by (cases dt; cases bo) (simp_all add: scalar_bytes_def le_bytes_def astype_def itemsize_def)

lemma length_concat_const:
  "(\<And>x. x \<in> set xs \<Longrightarrow> length (f x) = n) \<Longrightarrow> length (concat (map f xs)) = length xs * n"
  by (induction xs) simp_all

lemma length_tobytes:
  "length (tobytes bo (astype np dt a)) = prod_list (shape a) * itemsize dt"
proof -
  have "length (tobytes bo (astype np dt a)) = length (ndindex (nd_shape (astype np dt a))) * itemsize dt"
    unfolding tobytes_def by (rule length_concat_const) (rule length_scalar_bytes_astype)
  then show ?thesis by (simp add: length_ndindex astype_def)
qed






subsection \<open>Paths and the command line\<close>

lemma split_on_absent: "sep \<notin> set s \<Longrightarrow> split_on sep s = [s]"
  by (induction s) auto

lemma path_root_relative: "CHR ''/'' \<notin> set s \<Longrightarrow> path_root s = ''''"
  by (cases s) (auto simp: path_root_def)

lemma truediv_plain:
  "CHR ''/'' \<notin> set s \<Longrightarrow> s \<noteq> '''' \<Longrightarrow> s \<noteq> ''.'' \<Longrightarrow> truediv p s = path_join p s"
  by (simp add: truediv_def path_root_relative path_parts_def split_on_absent path_join_def)

text \<open>
  Claim C5, as the code has it. For a key without a slash that is not empty, \<open>.\<close> or
  \<open>..\<close>, the directory of a tensor is the destination root with one more part, the
  key itself, whatever dots the key holds.
\<close>

theorem foldername_single_segment:
  "CHR ''/'' \<notin> set key \<Longrightarrow> key \<noteq> '''' \<Longrightarrow> key \<noteq> ''.'' \<Longrightarrow> key \<noteq> ''..'' \<Longrightarrow>
   foldername d m key = \<lparr>root = root (dest_root d m), parts = parts (dest_root d m) @ [key]\<rparr>"
  unfolding foldername_def dest_root_def
  by (simp add: truediv_plain path_join_def)

text \<open>The directory of \<open>layers.0.mixer.in_proj.weight\<close>.\<close>

theorem foldername_single_segment_witness:
  "CHR ''/'' \<notin> set ''layers.0.mixer.in_proj.weight'' \<and>
   ''layers.0.mixer.in_proj.weight'' \<noteq> '''' \<and> ''layers.0.mixer.in_proj.weight'' \<noteq> ''.'' \<and>
   ''layers.0.mixer.in_proj.weight'' \<noteq> ''..'' \<and>
   dest_root ''/repo/Extra'' ''mamba-130m''
     = \<lparr>root = ''/'', parts = [''repo'', ''Extra'', ''converted'', ''mamba-130m'']\<rparr> \<and>
   foldername ''/repo/Extra'' ''mamba-130m'' ''layers.0.mixer.in_proj.weight''
     = \<lparr>root = ''/'', parts = [''repo'', ''Extra'', ''converted'', ''mamba-130m'',
           ''layers.0.mixer.in_proj.weight'']\<rparr>"
proof -
  have a: "CHR ''/'' \<notin> set ''layers.0.mixer.in_proj.weight''" by simp
  have b: "''layers.0.mixer.in_proj.weight'' \<noteq> ''''" by simp
  have c: "''layers.0.mixer.in_proj.weight'' \<noteq> ''.''" by simp
  have c': "''layers.0.mixer.in_proj.weight'' \<noteq> ''..''" by simp
  have d: "dest_root ''/repo/Extra'' ''mamba-130m''
     = \<lparr>root = ''/'', parts = [''repo'', ''Extra'', ''converted'', ''mamba-130m'']\<rparr>"
    by (simp add: dest_root_def truediv_def Path_def path_root_def path_parts_def)
  from foldername_single_segment [OF a b c c', of "''/repo/Extra''" "''mamba-130m''"] a b c c' d
  show ?thesis by simp
qed

text \<open>
  Claim C5 as stated fails for a key with a slash: \<open>a/b\<close> gives two nested directories,
  and the last part of the path is \<open>b\<close>.
\<close>

theorem foldername_nested_counterexample:
  "foldername ''/repo/Extra'' ''mamba-130m'' ''a/b''
     = \<lparr>root = ''/'', parts = [''repo'', ''Extra'', ''converted'', ''mamba-130m'', ''a'', ''b'']\<rparr> \<and>
   last (parts (foldername ''/repo/Extra'' ''mamba-130m'' ''a/b'')) \<noteq> ''a/b'' \<and>
   foldername ''/repo/Extra'' ''mamba-130m'' ''a/b''
     \<noteq> \<lparr>root = root (dest_root ''/repo/Extra'' ''mamba-130m''),
         parts = parts (dest_root ''/repo/Extra'' ''mamba-130m'') @ [''a/b'']\<rparr>"
  by (simp add: foldername_def dest_root_def truediv_def Path_def path_root_def path_parts_def)

text \<open>
  Claim C9 at the failing input. With the script name alone in \<open>sys.argv\<close> the test
  \<open>len(sys.argv) < 1\<close> is false: nothing is printed and \<open>sys.argv[1]\<close> raises IndexError.
  The usage branch is taken for an empty \<open>sys.argv\<close> only, and the status is then 0,
  since the value \<open>main\<close> returns is dropped.
\<close>

theorem main_without_argument:
  "stdout (main env [script]) = [] \<and>
   result (main env [script]) = Inl IndexError \<and>
   disk (main env [script]) = files env \<and>
   exit_status env [script] = 1 \<and>
   stdout (main env []) = [usage] \<and>
   result (main env []) = Inr (Some (- 1)) \<and>
   exit_status env [] = 0"
  by (simp add: main_def getitem_def exit_status_def)

lemma usage_unreachable: "argv \<noteq> [] \<Longrightarrow> usage \<notin> set (stdout (main env argv))"
  by (auto simp: main_def getitem_def usage_def Let_def split: sum.splits prod.splits)

subsection \<open>The export loop and the file system\<close>

lemma mkdirs_keeps_files:
  "mkdirs fs r pre xs = Inr fs' \<Longrightarrow> fs q = Some (File c) \<Longrightarrow> fs' q = Some (File c)"
proof (induction xs arbitrary: fs pre)
  case Nil
  then show ?case by simp
next
  case (Cons x xs)
  let ?d = "\<lparr>root = r, parts = pre @ [x]\<rparr>"
  show ?case
  proof (cases "fs ?d")
    case None
    with Cons.prems(1) have run: "mkdirs (fs(?d \<mapsto> Dir)) r (pre @ [x]) xs = Inr fs'"
      by (simp add: Let_def)
    from None Cons.prems(2) have "q \<noteq> ?d" by auto
    then have "(fs(?d \<mapsto> Dir)) q = Some (File c)" using Cons.prems(2) by simp
    with run show ?thesis by (rule Cons.IH)
  next
    case (Some n)
    show ?thesis
    proof (cases n)
      case Dir
      with Some Cons.prems(1) have "mkdirs fs r (pre @ [x]) xs = Inr fs'" by (simp add: Let_def)
      then show ?thesis using Cons.prems(2) by (rule Cons.IH)
    next
      case (File c')
      with Some Cons.prems(1) show ?thesis by (simp add: Let_def)
    qed
  qed
qed

lemma makedirs_keeps_files:
  "makedirs fs p = Inr fs' \<Longrightarrow> fs q = Some (File c) \<Longrightarrow> fs' q = Some (File c)"
  unfolding makedirs_def by (rule mkdirs_keeps_files)

lemma open_write_Inr: "open_write fs p c = Inr fs' \<Longrightarrow> fs' = fs(p \<mapsto> File c)"
  by (simp add: open_write_def Let_def split: if_splits)

lemma path_join_eq_iff: "path_join p x = path_join q y \<longleftrightarrow> p = q \<and> x = y"
  by (cases p; cases q) (auto simp: path_join_def)

lemma export_tensor_Inr:
  assumes "export_tensor np d m (lens, fs) (key, data) = Inr (lens', fs')"
  shows "\<exists>fs1. makedirs fs (foldername d m key) = Inr fs1 \<and>
           fs' = fs1(path_join (foldername d m key) ''metadata.json''
                       \<mapsto> File (Text (metadata key data (dtype key))),
                     path_join (foldername d m key) ''weights.bin''
                       \<mapsto> File (Binary (tobytes (native np) (astype np (dtype key) data)))) \<and>
           lens' = lens @ [length (shape data)]"
  using assms
  by (auto simp: Let_def to_numpy_def split: sum.splits if_splits dest!: open_write_Inr)

lemma export_tensor_written:
  assumes "export_tensor np d m (lens, fs) (key, data) = Inr (lens', fs')"
  shows "written np d m fs' key data"
  using export_tensor_Inr [OF assms] by (auto simp: written_def path_join_eq_iff)

lemma export_tensor_keeps:
  assumes "export_tensor np d m (lens, fs) (key, data) = Inr (lens', fs')"
    and "written np d m fs k0 t0" and "foldername d m k0 \<noteq> foldername d m key"
  shows "written np d m fs' k0 t0"
proof -
  from export_tensor_Inr [OF assms(1)] obtain fs1 where
    mk: "makedirs fs (foldername d m key) = Inr fs1" and
    fs': "fs' = fs1(path_join (foldername d m key) ''metadata.json''
                       \<mapsto> File (Text (metadata key data (dtype key))),
                     path_join (foldername d m key) ''weights.bin''
                       \<mapsto> File (Binary (tobytes (native np) (astype np (dtype key) data))))"
    by blast
  from assms(2) have "written np d m fs1 k0 t0"
    unfolding written_def using makedirs_keeps_files [OF mk] by blast
  then show ?thesis using assms(3) unfolding written_def fs' by (simp add: path_join_eq_iff)
qed

lemma export_all_covers:
  assumes "export_all np d m (lens, fs) sd = Inr (lens', fs')"
    and "(\<exists>k' t'. (k', t') \<in> A \<and> foldername d m k' = foldername d m k \<and> written np d m fs k' t')
         \<or> k \<in> fst ` set sd"
  shows "\<exists>k' t'. (k', t') \<in> A \<union> set sd \<and> foldername d m k' = foldername d m k
           \<and> written np d m fs' k' t'"
  using assms
proof (induction sd arbitrary: lens fs A)
  case Nil
  then show ?case by simp
next
  case (Cons kv sd)
  obtain k1 t1 where kv: "kv = (k1, t1)" by (cases kv)
  from Cons.prems(1) kv obtain lens1 fs1 where
    step: "export_tensor np d m (lens, fs) (k1, t1) = Inr (lens1, fs1)" and
    rest: "export_all np d m (lens1, fs1) sd = Inr (lens', fs')"
    by (auto split: sum.splits)
  have w1: "written np d m fs1 k1 t1" using step by (rule export_tensor_written)
  have "(\<exists>k' t'. (k', t') \<in> insert (k1, t1) A \<and> foldername d m k' = foldername d m k
            \<and> written np d m fs1 k' t') \<or> k \<in> fst ` set sd"
  proof -
    consider (old) k' t' where "(k', t') \<in> A" "foldername d m k' = foldername d m k"
        "written np d m fs k' t'"
      | (new) "k = k1" | (later) "k \<in> fst ` set sd"
      using Cons.prems(2) kv by auto
    then show ?thesis
    proof cases
      case old
      show ?thesis
      proof (cases "foldername d m k' = foldername d m k1")
        case True
        with old(2) w1 show ?thesis by auto
      next
        case False
        from export_tensor_keeps [OF step old(3) False] old(1,2) show ?thesis by auto
      qed
    next
      case new
      with w1 show ?thesis by auto
    next
      case later
      then show ?thesis by simp
    qed
  qed
  from Cons.IH [OF rest this] show ?case using kv by auto
qed

subsection \<open>Colliding keys\<close>

lemma fold_update_keys:
  "fst ` set (fold (\<lambda>(key, v). AList.update (new_key key) v) sd acc)
     = new_key ` fst ` set sd \<union> fst ` set acc"
  by (induction sd arbitrary: acc) (auto simp: dom_update split: prod.splits)

lemma fold_update_distinct:
  "distinct (map fst acc) \<Longrightarrow>
   distinct (map fst (fold (\<lambda>(key, v). AList.update (new_key key) v) sd acc))"
  by (induction sd arbitrary: acc) (auto simp: distinct_update split: prod.splits)

lemma fold_update_absent:
  "k \<notin> new_key ` fst ` set sd \<Longrightarrow>
   map_of (fold (\<lambda>(key, v). AList.update (new_key key) v) sd acc) k = map_of acc k"
  by (induction sd arbitrary: acc) (auto simp: update_conv' split: prod.splits)

lemma update_commute_present:
  "k \<in> fst ` set al \<Longrightarrow> k \<noteq> k' \<Longrightarrow>
   AList.update k' v (AList.update k t al) = AList.update k t (AList.update k' v al)"
  by (induction al) auto

lemma fold_update_shadowed:
  "k \<in> fst ` set al \<Longrightarrow>
   AList.update k t2 (fold (\<lambda>(key, v). AList.update (new_key key) v) ys (AList.update k t al))
   = AList.update k t2 (fold (\<lambda>(key, v). AList.update (new_key key) v) ys al)"
proof (induction ys arbitrary: al)
  case Nil
  show ?case by simp
next
  case (Cons y ys)
  obtain ky vy where y: "y = (ky, vy)" by (cases y)
  show ?case
  proof (cases "new_key ky = k")
    case True
    then show ?thesis using y by simp
  next
    case False
    then have sw: "AList.update (new_key ky) vy (AList.update k t al)
        = AList.update k t (AList.update (new_key ky) vy al)"
      using Cons.prems by (intro update_commute_present) auto
    have "k \<in> fst ` set (AList.update (new_key ky) vy al)"
      using Cons.prems by (simp add: dom_update)
    from Cons.IH [OF this] show ?thesis using y sw by simp
  qed
qed

lemma fold_update_overwritten:
  "AList.update k t2 (fold (\<lambda>(key, v). AList.update (new_key key) v) ys (AList.update k t1 acc))
   = AList.update k t2 (fold (\<lambda>(key, v). AList.update (new_key key) v) ys (AList.update k t1' acc))"
proof -
  have k: "k \<in> fst ` set (AList.update k t1 acc)" by (simp add: dom_update)
  have "AList.update k t1' acc = AList.update k t1' (AList.update k t1 acc)" by simp
  then show ?thesis using fold_update_shadowed [OF k, of t2 ys t1'] by simp
qed

lemma dissect_collision:
  assumes "new_key k1 = new_key k2"
  shows "dissect (\<lambda>n. Inr (xs @ (k1, t1) # ys @ (k2, t2) # zs)) name
       = dissect (\<lambda>n. Inr (xs @ (k1, t1') # ys @ (k2, t2) # zs)) name"
  using assms fold_update_overwritten [of "new_key k2" t2 ys t1 _ t1']
  by (simp add: dissect_def)

subsection \<open>Whole runs\<close>

lemma main_success:
  assumes "result (main env argv) = Inr r" and "getitem argv 1 = Inr m"
    and "load_state_dict_hf env (''state-spaces/'' @ m) = Inr sd"
  shows "\<exists>lens. export_all (np_lib env) (dirname_file env) m ([], files env)
                  (fold (\<lambda>(key, v). AList.update (new_key key) v) sd [])
               = Inr (lens, disk (main env argv))"
proof -
  from assms(2) have "\<not> length argv < 1" by (auto simp: getitem_def split: if_splits)
  then show ?thesis using assms
    by (auto simp: main_def dissect_def Let_def split: sum.splits prod.splits)
qed

lemma main_success_covers:
  assumes "result (main env argv) = Inr r" and "getitem argv 1 = Inr m"
    and "load_state_dict_hf env (''state-spaces/'' @ m) = Inr sd"
    and "(key, data) \<in> set sd"
  shows "\<exists>k t. foldername (dirname_file env) m k = foldername (dirname_file env) m (new_key key)
            \<and> written (np_lib env) (dirname_file env) m (disk (main env argv)) k t"
proof -
  from main_success [OF assms(1-3)] obtain lens where
    run: "export_all (np_lib env) (dirname_file env) m ([], files env)
            (fold (\<lambda>(key, v). AList.update (new_key key) v) sd [])
          = Inr (lens, disk (main env argv))" ..
  have "new_key key \<in> fst ` set (fold (\<lambda>(key, v). AList.update (new_key key) v) sd [])"
    using assms(4) by (force simp: fold_update_keys)
  then have "(\<exists>k' t'. (k', t') \<in> {} \<and>
        foldername (dirname_file env) m k' = foldername (dirname_file env) m (new_key key) \<and>
        written (np_lib env) (dirname_file env) m (files env) k' t')
      \<or> new_key key \<in> fst ` set (fold (\<lambda>(key, v). AList.update (new_key key) v) sd [])"
    by simp
  from export_all_covers [OF run this] show ?thesis by blast
qed

text \<open>
  Claim C2. After a run that ends without an exception, the directory of every tensor
  of the state dict holds a \<open>metadata.json\<close> with a shape and a flag \<open>is16bit\<close> and a
  \<open>weights.bin\<close> whose length is the product of that shape times 2 when the flag is
  true and times 4 when it is false.
\<close>

theorem payload_length_matches_shape:
  assumes "result (main env argv) = Inr r" and "getitem argv 1 = Inr m"
    and "load_state_dict_hf env (''state-spaces/'' @ m) = Inr state_dict"
    and "(key, data) \<in> set state_dict"
  shows "\<exists>k sh b bs.
           disk (main env argv)
               (path_join (foldername (dirname_file env) m (new_key key)) ''metadata.json'')
             = Some (File (Text (JObject [(''key'', JString k),
                                          (''shape'', JArray (map (\<lambda>d. JInt (int d)) sh)),
                                          (''is16bit'', JBool b)]))) \<and>
           disk (main env argv)
               (path_join (foldername (dirname_file env) m (new_key key)) ''weights.bin'')
             = Some (File (Binary bs)) \<and>
           length bs = prod_list sh * (if b then 2 else 4)"
proof -
  from main_success_covers [OF assms] obtain k t where
    same: "foldername (dirname_file env) m k = foldername (dirname_file env) m (new_key key)" and
    w: "written (np_lib env) (dirname_file env) m (disk (main env argv)) k t"
    by blast
  have "length (tobytes (native (np_lib env)) (astype (np_lib env) (dtype k) t))
      = prod_list (shape t) * (if dtype k = F2 then 2 else 4)"
    by (cases "dtype k") (simp_all add: length_tobytes itemsize_def)
  with w same show ?thesis unfolding written_def metadata_def by auto
qed


lemma main_two_args:
  "main env [script, m] =
     (case dissect (load_state_dict_hf env) (''state-spaces/'' @ m) of
        Inl e \<Rightarrow> \<lparr>stdout = [''Model to convert: '' @ m], result = Inl e, disk = files env\<rparr>
      | Inr state_dict \<Rightarrow>
          (case export_all (np_lib env) (dirname_file env) m ([], files env) state_dict of
             Inl (e, fs) \<Rightarrow> \<lparr>stdout = [''Model to convert: '' @ m], result = Inl e, disk = fs\<rparr>
           | Inr (lens, fs) \<Rightarrow>
               \<lparr>stdout = [''Model to convert: '' @ m], result = Inr None, disk = fs\<rparr>))"
  by (simp add: main_def getitem_def Let_def split: sum.splits prod.splits)

text \<open>
  Claim C7, as the code has it. When two names of the state dict are renamed to the same
  key, \<open>dissect\<close> raises nothing and returns one entry for that key, with the tensor
  of the later name (when no name behind it is renamed to the key as well); the run does
  not depend on the tensor of the earlier name at all.
\<close>

theorem collision_replaces_silently:
  assumes "load_state_dict_hf env (''state-spaces/'' @ m)
             = Inr (xs @ (k1, t1) # ys @ (k2, t2) # zs)"
    and "new_key k1 = new_key k2"
    and "new_key k2 \<notin> new_key ` fst ` set zs"
  shows "(\<exists>nsd. dissect (load_state_dict_hf env) (''state-spaces/'' @ m) = Inr nsd \<and>
            distinct (map fst nsd) \<and> map_of nsd (new_key k2) = Some t2) \<and>
         main env [script, m]
           = main (env\<lparr>load_state_dict_hf := \<lambda>n. Inr (xs @ (k1, t1') # ys @ (k2, t2) # zs)\<rparr>)
               [script, m]"
proof
  let ?F = "fold (\<lambda>(key, v). AList.update (new_key key) v)"
  have "map_of (?F (xs @ (k1, t1) # ys @ (k2, t2) # zs) []) (new_key k2) = Some t2"
    using assms(3) by (simp add: fold_update_absent update_conv')
  moreover have "distinct (map fst (?F (xs @ (k1, t1) # ys @ (k2, t2) # zs) []))"
    by (rule fold_update_distinct) simp
  ultimately show "\<exists>nsd. dissect (load_state_dict_hf env) (''state-spaces/'' @ m) = Inr nsd \<and>
            distinct (map fst nsd) \<and> map_of nsd (new_key k2) = Some t2"
    using assms(1) by (simp add: dissect_def)
next
  let ?env' = "env\<lparr>load_state_dict_hf := \<lambda>n. Inr (xs @ (k1, t1') # ys @ (k2, t2) # zs)\<rparr>"
  have "dissect (load_state_dict_hf env) (''state-spaces/'' @ m)
      = dissect (\<lambda>n. Inr (xs @ (k1, t1) # ys @ (k2, t2) # zs)) (''state-spaces/'' @ m)"
    using assms(1) by (simp add: dissect_def)
  also have "\<dots> = dissect (\<lambda>n. Inr (xs @ (k1, t1') # ys @ (k2, t2) # zs)) (''state-spaces/'' @ m)"
    using assms(2) by (rule dissect_collision)
  also have "\<dots> = dissect (load_state_dict_hf ?env') (''state-spaces/'' @ m)"
    by simp
  finally have eq: "dissect (load_state_dict_hf env) (''state-spaces/'' @ m)
      = dissect (load_state_dict_hf ?env') (''state-spaces/'' @ m)" .
  have "main env [script, m] = main ?env' [script, m]"
    unfolding main_two_args eq by (simp split: sum.splits prod.splits)
  then show "main env [script, m]
           = main (env\<lparr>load_state_dict_hf := \<lambda>n. Inr (xs @ (k1, t1') # ys @ (k2, t2) # zs)\<rparr>)
               [script, m]" .
qed



subsection \<open>The example runs, evaluated\<close>

lemmas run_simps = main_def getitem_def example_env_def dissect_def new_key_def
  foldername_def truediv_def Path_def path_root_def path_parts_def makedirs_def
  to_numpy_def ones_def zeros_def one_hot_def astype_def dtype_def metadata_def tobytes_def
  scalar_bytes_def le_bytes_def open_write_def path_join_def example_numpy_def Let_def
  exit_status_def upt_conv_Cons

lemmas ex_simps = run_simps argv_130m_def scenario_a_def scenario_c_def colliding_def
  integer_valued_def

text \<open>Scenario A of the specification: shape \<open>[3, 4]\<close> in 16 bits, 24 bytes.\<close>

theorem payload_length_matches_shape_witness:
  "result (main (example_env scenario_a) argv_130m) = Inr None \<and>
   getitem argv_130m 1 = Inr ''mamba-130m'' \<and>
   load_state_dict_hf (example_env scenario_a) (''state-spaces/'' @ ''mamba-130m'') = Inr scenario_a \<and>
   (''backbone.embedding.weight'', ones Float32 [3, 4]) \<in> set scenario_a \<and>
   (\<exists>k sh b bs.
      disk (main (example_env scenario_a) argv_130m)
          (path_join (foldername (dirname_file (example_env scenario_a)) ''mamba-130m''
             (new_key ''backbone.embedding.weight'')) ''metadata.json'')
        = Some (File (Text (JObject [(''key'', JString k),
                                     (''shape'', JArray (map (\<lambda>d. JInt (int d)) sh)),
                                     (''is16bit'', JBool b)]))) \<and>
      disk (main (example_env scenario_a) argv_130m)
          (path_join (foldername (dirname_file (example_env scenario_a)) ''mamba-130m''
             (new_key ''backbone.embedding.weight'')) ''weights.bin'')
        = Some (File (Binary bs)) \<and>
      length bs = prod_list sh * (if b then 2 else 4)) \<and>
   disk (main (example_env scenario_a) argv_130m)
       (path_join (foldername ''/repo/Extra'' ''mamba-130m'' ''embedding.weight'') ''metadata.json'')
     = Some (File (Text (JObject [(''key'', JString ''embedding.weight''),
                                  (''shape'', JArray [JInt 3, JInt 4]),
                                  (''is16bit'', JBool True)]))) \<and>
   (\<exists>bs. disk (main (example_env scenario_a) argv_130m)
       (path_join (foldername ''/repo/Extra'' ''mamba-130m'' ''embedding.weight'') ''weights.bin'')
     = Some (File (Binary bs)) \<and> length bs = 24)"
proof -
  have h1: "result (main (example_env scenario_a) argv_130m) = Inr None"
    by (simp add: ex_simps)
  have h2: "getitem argv_130m 1 = Inr ''mamba-130m''"
    by (simp add: ex_simps)
  have h3: "load_state_dict_hf (example_env scenario_a) (''state-spaces/'' @ ''mamba-130m'')
      = Inr scenario_a"
    by (simp add: example_env_def)
  have h4: "(''backbone.embedding.weight'', ones Float32 [3, 4]) \<in> set scenario_a"
    by (simp add: scenario_a_def)
  have md: "disk (main (example_env scenario_a) argv_130m)
       (path_join (foldername ''/repo/Extra'' ''mamba-130m'' ''embedding.weight'') ''metadata.json'')
     = Some (File (Text (JObject [(''key'', JString ''embedding.weight''),
                                  (''shape'', JArray [JInt 3, JInt 4]),
                                  (''is16bit'', JBool True)])))"
    by (simp add: ex_simps)
  have wb: "\<exists>bs. disk (main (example_env scenario_a) argv_130m)
       (path_join (foldername ''/repo/Extra'' ''mamba-130m'' ''embedding.weight'') ''weights.bin'')
     = Some (File (Binary bs)) \<and> length bs = 24"
    by (simp add: ex_simps)
  from payload_length_matches_shape [OF h1 h2 h3 h4] h1 h2 h3 h4 md wb
  show ?thesis by blast
qed


text \<open>
  Claim C7 as stated fails: \<open>backbone.norm.weight\<close> (ones) and \<open>norm.weight\<close>
  (zeros) are renamed to the same key; the run ends without an exception and with status
  0, and the one directory holds the zeros.
\<close>

theorem collision_not_reported_counterexample:
  "''backbone.norm.weight'' \<noteq> ''norm.weight'' \<and>
   new_key ''backbone.norm.weight'' = new_key ''norm.weight'' \<and>
   result (main (example_env colliding) argv_130m) = Inr None \<and>
   exit_status (example_env colliding) argv_130m = 0 \<and>
   stdout (main (example_env colliding) argv_130m) = [''Model to convert: mamba-130m''] \<and>
   tobytes Little (astype example_numpy F4 (ones Float32 [2]))
     = [0x00, 0x00, 0x80, 0x3F, 0x00, 0x00, 0x80, 0x3F] \<and>
   disk (main (example_env colliding) argv_130m)
       (path_join (foldername ''/repo/Extra'' ''mamba-130m'' ''norm.weight'') ''weights.bin'')
     = Some (File (Binary [0, 0, 0, 0, 0, 0, 0, 0]))"
  by (simp add: ex_simps)

text \<open>The same two names; the run is the same with any other first tensor.\<close>

theorem collision_replaces_silently_witness:
  "load_state_dict_hf (example_env colliding) (''state-spaces/'' @ ''mamba-130m'')
     = Inr ([] @ (''backbone.norm.weight'', ones Float32 [2]) # []
              @ (''norm.weight'', zeros Float32 [2]) # []) \<and>
   new_key ''backbone.norm.weight'' = new_key ''norm.weight'' \<and>
   new_key ''norm.weight'' \<notin> new_key ` fst ` set ([] :: (string \<times> int tensor) list) \<and>
   (\<exists>nsd. dissect (load_state_dict_hf (example_env colliding)) (''state-spaces/'' @ ''mamba-130m'')
            = Inr nsd \<and>
          distinct (map fst nsd) \<and> map_of nsd (new_key ''norm.weight'') = Some (zeros Float32 [2])) \<and>
   main (example_env colliding) [''convert.py'', ''mamba-130m'']
     = main ((example_env colliding)\<lparr>load_state_dict_hf :=
               \<lambda>n. Inr ([] @ (''backbone.norm.weight'', zeros Int64 [7]) # []
                          @ (''norm.weight'', zeros Float32 [2]) # [])\<rparr>)
         [''convert.py'', ''mamba-130m'']"
proof -
  have h1: "load_state_dict_hf (example_env colliding) (''state-spaces/'' @ ''mamba-130m'')
     = Inr ([] @ (''backbone.norm.weight'', ones Float32 [2]) # []
              @ (''norm.weight'', zeros Float32 [2]) # [])"
    by (simp add: example_env_def colliding_def)
  have h2: "new_key ''backbone.norm.weight'' = new_key ''norm.weight''"
    by (simp add: new_key_def)
  have h3: "new_key ''norm.weight'' \<notin> new_key ` fst ` set ([] :: (string \<times> int tensor) list)"
    by simp
  from collision_replaces_silently [OF h1 h2 h3, of "''convert.py''" "zeros Int64 [7]"] h1 h2 h3
  show ?thesis by blast
qed



end
